theory Spec2Isabelle
  imports Main "HOL-Library.Sublist"
begin

section \<open>Python values\<close>

text \<open>
  A Python \<open>str\<close> is a sequence of Unicode code points, a \<open>bytes\<close> object a sequence of
  integers below 256. Both are lists of naturals here; \<open>str\<close> writes an ASCII literal.
  A \<open>str\<close> holds code points below \<open>0x110000\<close> (\<open>is_str\<close>); it may hold lone surrogates
  (\<open>0xD800\<close> to \<open>0xDFFF\<close>), which are not text and which UTF-8 refuses to encode.
\<close>

type_synonym pystr = "nat list"
type_synonym pybytes = "nat list"

definition str :: "string \<Rightarrow> pystr" where
  "str s = map of_char s"

definition is_surrogate :: "nat \<Rightarrow> bool" where
  "is_surrogate c = (0xD800 \<le> c \<and> c \<le> 0xDFFF)"

definition is_str :: "pystr \<Rightarrow> bool" where
  "is_str s = list_all (\<lambda>c. c < 0x110000) s"

definition valid_text :: "pystr \<Rightarrow> bool" where
  "valid_text s = list_all (\<lambda>c. c < 0x110000 \<and> \<not> is_surrogate c) s"

text \<open>The exceptions that can leave the methods of \<open>sites_finder.py\<close>.\<close>

datatype exn =
    UnicodeEncodeError
  | TypeError
  | ConnectionError
  | Timeout
  | ParserError

subsection \<open>\<open>str.encode('utf-8', 'strict')\<close>\<close>

definition utf8_encode_cp :: "nat \<Rightarrow> exn + pybytes" where
  "utf8_encode_cp c =
     (if c < 0x80 then Inr [c]
      else if c < 0x800 then Inr [0xC0 + c div 64, 0x80 + c mod 64]
      else if is_surrogate c then Inl UnicodeEncodeError
      else if c < 0x10000 then
        Inr [0xE0 + c div 4096, 0x80 + (c div 64) mod 64, 0x80 + c mod 64]
      else
        Inr [0xF0 + c div 262144, 0x80 + (c div 4096) mod 64,
             0x80 + (c div 64) mod 64, 0x80 + c mod 64])"

fun encode_utf8 :: "pystr \<Rightarrow> exn + pybytes" where
  "encode_utf8 [] = Inr []"
| "encode_utf8 (c # cs) =
     (case utf8_encode_cp c of
        Inl e \<Rightarrow> Inl e
      | Inr bs \<Rightarrow> (case encode_utf8 cs of Inl e \<Rightarrow> Inl e | Inr rest \<Rightarrow> Inr (bs @ rest)))"

subsection \<open>\<open>bytes.decode('utf-8')\<close>\<close>

text \<open>
  The decoder on well-formed UTF-8 (shortest forms only, no surrogates, nothing above
  \<open>0x10FFFF\<close>). \<open>None\<close> stands for input that is not well-formed, where Python's
  \<open>errors='replace'\<close> would substitute \<open>U+FFFD\<close>; that substitution is not modelled.
\<close>

definition is_cont :: "nat \<Rightarrow> bool" where
  "is_cont b = (0x80 \<le> b \<and> b < 0xC0)"

fun decode_utf8 :: "pybytes \<Rightarrow> pystr option" where
  "decode_utf8 [] = Some []"
| "decode_utf8 (b # bs) =
     (if b < 0x80 then map_option ((#) b) (decode_utf8 bs)
      else if b < 0xC2 then None
      else if b < 0xE0 then
        (case bs of
           b2 # r \<Rightarrow>
             if is_cont b2
             then map_option ((#) ((b - 0xC0) * 64 + (b2 - 0x80))) (decode_utf8 r)
             else None
         | _ \<Rightarrow> None)
      else if b < 0xF0 then
        (case bs of
           b2 # b3 # r \<Rightarrow>
             if is_cont b2 \<and> is_cont b3 \<and> \<not> (b = 0xE0 \<and> b2 < 0xA0)
                \<and> \<not> (b = 0xED \<and> 0xA0 \<le> b2)
             then map_option
                    ((#) ((b - 0xE0) * 4096 + (b2 - 0x80) * 64 + (b3 - 0x80)))
                    (decode_utf8 r)
             else None
         | _ \<Rightarrow> None)
      else if b < 0xF5 then
        (case bs of
           b2 # b3 # b4 # r \<Rightarrow>
             if is_cont b2 \<and> is_cont b3 \<and> is_cont b4 \<and> \<not> (b = 0xF0 \<and> b2 < 0x90)
                \<and> \<not> (b = 0xF4 \<and> 0x90 \<le> b2)
             then map_option
                    ((#) ((b - 0xF0) * 262144 + (b2 - 0x80) * 4096
                          + (b3 - 0x80) * 64 + (b4 - 0x80)))
                    (decode_utf8 r)
             else None
         | _ \<Rightarrow> None)
      else None)"

section \<open>\<open>urllib.parse\<close>\<close>

text \<open>
  \<open>sites_finder.py\<close> calls \<open>parse.quote_plus\<close> of the Python standard library. The
  definitions below follow \<open>Lib/urllib/parse.py\<close> function by function, with the
  default arguments \<open>safe=''\<close>, \<open>encoding='utf-8'\<close>, \<open>errors='strict'\<close> that the call
  in the setter leaves in place.
\<close>

definition ALWAYS_SAFE :: pybytes where
  "ALWAYS_SAFE =
     str ''ABCDEFGHIJKLMNOPQRSTUVWXYZabcdefghijklmnopqrstuvwxyz0123456789_.-~''"

definition hexdigit_upper :: "nat \<Rightarrow> nat" where
  "hexdigit_upper d = (if d < 10 then 48 + d else 55 + d)"

text \<open>\<open>'{:02X}'.format(b)\<close> for a byte \<open>b\<close>.\<close>

definition format_02X :: "nat \<Rightarrow> pystr" where
  "format_02X b = [hexdigit_upper (b div 16), hexdigit_upper (b mod 16)]"

text \<open>
  \<open>_Quoter.__missing__\<close>: \<open>chr(b) if b in self.safe else '%{:02X}'.format(b)\<close>, where
  \<open>self.safe\<close> is \<open>_ALWAYS_SAFE.union(safe)\<close>. The cache it fills does not change
  what it returns.
\<close>

definition Quoter_missing :: "pybytes \<Rightarrow> nat \<Rightarrow> pystr" where
  "Quoter_missing safe b =
     (if b \<in> set (ALWAYS_SAFE @ safe) then [b] else 37 # format_02X b)"

definition rstrip :: "pybytes \<Rightarrow> pybytes \<Rightarrow> pybytes" where
  "rstrip bs chars = rev (dropWhile (\<lambda>b. b \<in> set chars) (rev bs))"

text \<open>
  \<open>quote_from_bytes\<close>: \<open>safe.encode('ascii', 'ignore')\<close> drops the non-ASCII characters
  of \<open>safe\<close>; when every byte is safe the bytes are returned decoded, and they are
  ASCII then, so the code points are the bytes.
\<close>

definition quote_from_bytes :: "pybytes \<Rightarrow> pystr \<Rightarrow> pystr" where
  "quote_from_bytes bs safe =
     (if bs = [] then []
      else
        let safe' = filter (\<lambda>c. c < 128) safe in
        if rstrip bs (ALWAYS_SAFE @ safe') = [] then bs
        else concat (map (Quoter_missing safe') bs))"

definition quote :: "pystr \<Rightarrow> pystr \<Rightarrow> exn + pystr" where
  "quote string safe =
     (if string = [] then Inr string
      else
        case encode_utf8 string of
          Inl e \<Rightarrow> Inl e
        | Inr bs \<Rightarrow> Inr (quote_from_bytes bs safe))"

text \<open>\<open>s.replace(old, new)\<close> for one-character \<open>old\<close> and \<open>new\<close>.\<close>

definition replace_char :: "nat \<Rightarrow> nat \<Rightarrow> pystr \<Rightarrow> pystr" where
  "replace_char old new s = map (\<lambda>c. if c = old then new else c) s"

definition quote_plus :: "pystr \<Rightarrow> exn + pystr" where
  "quote_plus string =
     (if 32 \<notin> set string then quote string []
      else
        case quote string ([] @ [32]) of
          Inl e \<Rightarrow> Inl e
        | Inr q \<Rightarrow> Inr (replace_char 32 43 q))"

subsection \<open>The decoder that matches: \<open>unquote_plus\<close>\<close>

definition is_hexdig :: "nat \<Rightarrow> bool" where
  "is_hexdig c = ((48 \<le> c \<and> c \<le> 57) \<or> (65 \<le> c \<and> c \<le> 70) \<or> (97 \<le> c \<and> c \<le> 102))"

definition hexval :: "nat \<Rightarrow> nat" where
  "hexval c = (if c \<le> 57 then c - 48 else if c \<le> 70 then c - 55 else c - 87)"

text \<open>
  \<open>unquote_to_bytes\<close> splits at \<open>%\<close> and replaces each \<open>%\<close> that two hexadecimal digits
  follow by the byte they write; any other \<open>%\<close> stays.
\<close>

fun unquote_to_bytes :: "pybytes \<Rightarrow> pybytes" where
  "unquote_to_bytes [] = []"
| "unquote_to_bytes [c] = [c]"
| "unquote_to_bytes [c, d] = [c, d]"
| "unquote_to_bytes (c # h1 # h2 # rest) =
     (if c = 37 \<and> is_hexdig h1 \<and> is_hexdig h2
      then (16 * hexval h1 + hexval h2) # unquote_to_bytes rest
      else c # unquote_to_bytes (h1 # h2 # rest))"

text \<open>
  \<open>unquote\<close> decodes each maximal run of ASCII characters and leaves the characters
  between the runs as they are. \<open>unquote_parts acc s\<close> walks \<open>s\<close> with the current run,
  reversed, in \<open>acc\<close>.
\<close>

fun unquote_parts :: "pystr \<Rightarrow> pystr \<Rightarrow> pystr option" where
  "unquote_parts acc [] = decode_utf8 (unquote_to_bytes (rev acc))"
| "unquote_parts acc (c # cs) =
     (if c < 128 then unquote_parts (c # acc) cs
      else
        case decode_utf8 (unquote_to_bytes (rev acc)) of
          None \<Rightarrow> None
        | Some run \<Rightarrow> map_option (\<lambda>rest. run @ c # rest) (unquote_parts [] cs))"

definition unquote :: "pystr \<Rightarrow> pystr option" where
  "unquote string = (if 37 \<notin> set string then Some string else unquote_parts [] string)"

definition unquote_plus :: "pystr \<Rightarrow> pystr option" where
  "unquote_plus string = unquote (replace_char 43 32 string)"

section \<open>\<open>GoogleSitesFinder\<close>\<close>

text \<open>
  The class has the one slot \<open>_search_query\<close>. An instance exists only once \<open>__init__\<close>
  has run the setter without raising, so the slot always holds a string.
\<close>

record GoogleSitesFinder =
  priv_search_query :: pystr

definition base_query :: pystr where
  "base_query = str ''https://www.google.co.uk/search?q=''"

text \<open>The setter of the property \<open>search_query\<close>.\<close>

definition search_query_setter ::
  "GoogleSitesFinder \<Rightarrow> pystr \<Rightarrow> exn + GoogleSitesFinder" where
  "search_query_setter self service_version =
     (case quote_plus service_version of
        Inl e \<Rightarrow> Inl e
      | Inr q \<Rightarrow> Inr (self\<lparr>priv_search_query := base_query @ q\<rparr>))"

text \<open>\<open>__init__\<close>: the new object's slot is filled by the setter.\<close>

definition init :: "pystr \<Rightarrow> exn + GoogleSitesFinder" where
  "init service_version =
     (case quote_plus service_version of
        Inl e \<Rightarrow> Inl e
      | Inr q \<Rightarrow> Inr \<lparr>priv_search_query = base_query @ q\<rparr>)"

text \<open>The getter of the property \<open>search_query\<close>.\<close>

definition search_query :: "GoogleSitesFinder \<Rightarrow> pystr" where
  "search_query self = priv_search_query self @ str '' exploit''"

subsection \<open>The request and the extraction\<close>

text \<open>
  The response of \<open>requests_html\<close> as the code uses it: \<open>status_code\<close> is what the server
  answered, \<open>html_absolute_links\<close> is \<open>response.html.absolute_links\<close> in the order in which
  \<open>list\<close> reads the set, or the exception that parsing the body raises. A session is
  its \<open>get\<close>: it raises on a failed request and returns a response for every status, as
  \<open>requests\<close> does when \<open>raise_for_status\<close> is not called.
\<close>

record HTMLResponse =
  status_code :: nat
  html_absolute_links :: "exn + pystr list"

type_synonym session = "pystr \<Rightarrow> exn + HTMLResponse"

definition send_search_query :: "session \<Rightarrow> pystr \<Rightarrow> exn + HTMLResponse" where
  "send_search_query get query = get query"

definition extract_urls :: "HTMLResponse \<Rightarrow> exn + pystr list" where
  "extract_urls response = html_absolute_links response"

text \<open>\<open>url.startswith(site)\<close>: \<open>site\<close> is not longer than \<open>url\<close> and equals its first part.\<close>

definition startswith :: "pystr \<Rightarrow> pystr \<Rightarrow> bool" where
  "startswith url site = (length site \<le> length url \<and> take (length site) url = site)"

definition filter_extracted_urls :: "pystr \<Rightarrow> pystr list \<Rightarrow> pystr list" where
  "filter_extracted_urls site urls = [url \<leftarrow> urls. startswith url site]"

definition search_for_pages ::
  "session \<Rightarrow> GoogleSitesFinder \<Rightarrow> pystr \<Rightarrow> exn + pystr list" where
  "search_for_pages get self site =
     (case send_search_query get (search_query self) of
        Inl e \<Rightarrow> Inl e
      | Inr response \<Rightarrow>
          (case extract_urls response of
             Inl e \<Rightarrow> Inl e
           | Inr urls \<Rightarrow> Inr (filter_extracted_urls site urls)))"

subsection \<open>The public operations of an instance\<close>

text \<open>
  What a caller can do with an instance: read the property, assign to it, ask for the
  \<open>repr\<close>, call the static filter, and search. \<open>perform\<close> gives what the operation
  returns or raises and the instance afterwards. \<open>__repr__\<close> calls \<open>vars(self)\<close>, which
  raises \<open>TypeError\<close> on an instance of a class with \<open>__slots__\<close> and no \<open>__dict__\<close>.
\<close>

datatype operation =
    Read_search_query
  | Assign_search_query pystr
  | Repr
  | Filter_extracted_urls pystr "pystr list"
  | Search_for_pages pystr

datatype outcome =
    Returned_str pystr
  | Returned_list "pystr list"
  | Returned_None
  | Raised exn

fun perform :: "session \<Rightarrow> operation \<Rightarrow> GoogleSitesFinder \<Rightarrow> outcome \<times> GoogleSitesFinder" where
  "perform get Read_search_query self = (Returned_str (search_query self), self)"
| "perform get (Assign_search_query service_version) self =
     (case search_query_setter self service_version of
        Inl e \<Rightarrow> (Raised e, self)
      | Inr self' \<Rightarrow> (Returned_None, self'))"
| "perform get Repr self = (Raised TypeError, self)"
| "perform get (Filter_extracted_urls site urls) self =
     (Returned_list (filter_extracted_urls site urls), self)"
| "perform get (Search_for_pages site) self =
     (case search_for_pages get self site of
        Inl e \<Rightarrow> (Raised e, self)
      | Inr pages \<Rightarrow> (Returned_list pages, self))"

text \<open>
  A session whose server answers every request with status 503 and a page that holds
  two links.
\<close>

definition unavailable_response :: HTMLResponse where
  "unavailable_response =
     \<lparr>status_code = 503,
      html_absolute_links =
        Inr [str ''https://www.google.co.uk/sorry'',
             str ''https://www.exploit-db.com/exploits/1'']\<rparr>"

definition unavailable_session :: session where
  "unavailable_session query = Inr unavailable_response"

text \<open>A session whose server answers with status 200 and the page of \<open>unavailable_response\<close>.\<close>

definition found_response :: HTMLResponse where
  "found_response = unavailable_response\<lparr>status_code := 200\<rparr>"

definition found_session :: session where
  "found_session query = Inr found_response"

text \<open>A session whose every request fails before any response arrives.\<close>

definition unreachable_session :: session where
  "unreachable_session query = Inl ConnectionError"

text \<open>A session whose server answers with status 200 and a page without links.\<close>

definition blank_response :: HTMLResponse where
  "blank_response = \<lparr>status_code = 200, html_absolute_links = Inr []\<rparr>"

definition blank_session :: session where
  "blank_session query = Inr blank_response"

section \<open>Percent-encoding\<close>

subsection \<open>The bytes that are never escaped\<close>

lemma ALWAYS_SAFE_ranges:
  "ALWAYS_SAFE = [65..<91] @ [97..<123] @ [48..<58] @ [95, 46, 45, 126]"
  unfolding ALWAYS_SAFE_def str_def by (simp add: upt_rec_numeral)

lemma set_ALWAYS_SAFE:
  "set ALWAYS_SAFE = {65..<91} \<union> {97..<123} \<union> {48..<58} \<union> {95, 46, 45, 126}"
  by (simp only: ALWAYS_SAFE_ranges set_append set_upt list.set Un_assoc)

lemma in_ALWAYS_SAFE:
  "b \<in> set ALWAYS_SAFE \<longleftrightarrow>
     (65 \<le> b \<and> b < 91) \<or> (97 \<le> b \<and> b < 123) \<or> (48 \<le> b \<and> b < 58)
     \<or> b = 95 \<or> b = 46 \<or> b = 45 \<or> b = 126"
  unfolding set_ALWAYS_SAFE by auto

lemma rstrip_Nil: "rstrip bs chars = [] \<longleftrightarrow> set bs \<subseteq> set chars"
  by (auto simp: rstrip_def dropWhile_eq_Nil_conv)

lemma Quoter_missing_safe: "b \<in> set (ALWAYS_SAFE @ safe) \<Longrightarrow> Quoter_missing safe b = [b]"
  by (simp add: Quoter_missing_def)

lemma concat_map_singleton: "(\<And>x. x \<in> set xs \<Longrightarrow> f x = [x]) \<Longrightarrow> concat (map f xs) = xs"
  by (induction xs) auto

lemma quote_from_bytes_map:
  "quote_from_bytes bs safe = concat (map (Quoter_missing (filter (\<lambda>c. c < 128) safe)) bs)"
proof (cases "rstrip bs (ALWAYS_SAFE @ filter (\<lambda>c. c < 128) safe) = []")
  case True
  then have "set bs \<subseteq> set (ALWAYS_SAFE @ filter (\<lambda>c. c < 128) safe)"
    by (simp only: rstrip_Nil)
  then have "concat (map (Quoter_missing (filter (\<lambda>c. c < 128) safe)) bs) = bs"
    by (intro concat_map_singleton Quoter_missing_safe) blast
  with True show ?thesis
    by (simp add: quote_from_bytes_def)
next
  case False
  then show ?thesis
    by (auto simp: quote_from_bytes_def)
qed

subsection \<open>UTF-8\<close>

lemma utf8_encode_cp_space: "utf8_encode_cp c = Inr bs \<Longrightarrow> 32 \<in> set bs \<longleftrightarrow> c = 32"
  by (auto simp: utf8_encode_cp_def split: if_splits)

lemma encode_utf8_space: "encode_utf8 s = Inr bs \<Longrightarrow> 32 \<in> set bs \<longleftrightarrow> 32 \<in> set s"
proof (induction s arbitrary: bs)
  case Nil
  then show ?case by simp
next
  case (Cons c cs)
  then show ?case
    by (auto split: sum.splits simp: utf8_encode_cp_space)
qed

lemma utf8_encode_cp_bytes:
  "utf8_encode_cp c = Inr bs \<Longrightarrow> c < 0x110000 \<Longrightarrow> list_all (\<lambda>b. b < 256) bs"
  by (auto simp: utf8_encode_cp_def split: if_splits)

lemma encode_utf8_bytes:
  "encode_utf8 s = Inr bs \<Longrightarrow> is_str s \<Longrightarrow> list_all (\<lambda>b. b < 256) bs"
proof (induction s arbitrary: bs)
  case Nil
  then show ?case by simp
next
  case (Cons c cs)
  then show ?case
    by (auto split: sum.splits simp: is_str_def dest: utf8_encode_cp_bytes)
qed

lemma utf8_encode_cp_Inl:
  "utf8_encode_cp c = Inl e \<longleftrightarrow> e = UnicodeEncodeError \<and> is_surrogate c"
  by (auto simp: utf8_encode_cp_def is_surrogate_def)

lemma encode_utf8_Inl:
  "encode_utf8 s = Inl e \<longleftrightarrow> e = UnicodeEncodeError \<and> list_ex is_surrogate s"
proof (induction s)
  case Nil
  then show ?case by simp
next
  case (Cons c cs)
  show ?case
  proof (cases "utf8_encode_cp c")
    case (Inl e')
    then have "e' = UnicodeEncodeError \<and> is_surrogate c"
      by (simp add: utf8_encode_cp_Inl)
    with Inl show ?thesis
      by auto
  next
    case (Inr bs)
    then have "\<not> is_surrogate c"
      by (auto simp: utf8_encode_cp_def is_surrogate_def split: if_splits)
    with Inr Cons show ?thesis
      by (auto split: sum.splits)
  qed
qed

lemma valid_text_encode_utf8: "valid_text s \<Longrightarrow> \<exists>bs. encode_utf8 s = Inr bs"
proof -
  assume "valid_text s"
  then have "\<not> list_ex is_surrogate s"
    by (auto simp: valid_text_def list_all_iff list_ex_iff)
  then have "\<And>e. encode_utf8 s \<noteq> Inl e"
    by (simp add: encode_utf8_Inl)
  then show ?thesis
    by (cases "encode_utf8 s") auto
qed

subsection \<open>Decoding what was encoded\<close>

lemma decode_utf8_two:
  "2 \<le> p \<Longrightarrow> p < 32 \<Longrightarrow> a < 64 \<Longrightarrow>
   decode_utf8 ((0xC0 + p) # (0x80 + a) # r) = map_option ((#) (p * 64 + a)) (decode_utf8 r)"
  by (simp add: is_cont_def)

lemma decode_utf8_three:
  "p < 16 \<Longrightarrow> b < 64 \<Longrightarrow> a < 64 \<Longrightarrow> (p = 0 \<Longrightarrow> 32 \<le> b) \<Longrightarrow> (p = 13 \<Longrightarrow> b < 32) \<Longrightarrow>
   decode_utf8 ((0xE0 + p) # (0x80 + b) # (0x80 + a) # r) =
     map_option ((#) (p * 4096 + b * 64 + a)) (decode_utf8 r)"
  by (auto simp: is_cont_def)

lemma decode_utf8_four:
  "t < 5 \<Longrightarrow> d < 64 \<Longrightarrow> b < 64 \<Longrightarrow> a < 64 \<Longrightarrow> (t = 0 \<Longrightarrow> 16 \<le> d) \<Longrightarrow> (t = 4 \<Longrightarrow> d < 16) \<Longrightarrow>
   decode_utf8 ((0xF0 + t) # (0x80 + d) # (0x80 + b) # (0x80 + a) # r) =
     map_option ((#) (t * 262144 + d * 4096 + b * 64 + a)) (decode_utf8 r)"
  by (auto simp: is_cont_def)

lemma decode_utf8_encode_cp:
  assumes "utf8_encode_cp c = Inr bs" and "c < 0x110000"
  shows "decode_utf8 (bs @ r) = map_option ((#) c) (decode_utf8 r)"
proof -
  define a q b p d t where "a = c mod 64" and "q = c div 64" and "b = q mod 64"
    and "p = q div 64" and "d = p mod 64" and "t = p div 64"
  have c: "c = q * 64 + a" and q: "q = p * 64 + b" and p: "p = t * 64 + d"
    by (simp_all add: a_def q_def b_def p_def d_def t_def)
  have lt: "a < 64" "b < 64" "d < 64"
    by (simp_all add: a_def b_def d_def)
  have p4096: "c div 4096 = p" and t262144: "c div 262144 = t"
    by (simp_all add: p_def q_def t_def div_mult2_eq)
  consider "c < 0x80" | "0x80 \<le> c" "c < 0x800"
    | "0x800 \<le> c" "c < 0x10000" "\<not> is_surrogate c" | "0x10000 \<le> c"
    | "is_surrogate c"
    unfolding is_surrogate_def by linarith
  then show ?thesis
  proof cases
    case 1
    with assms show ?thesis
      by (auto simp: utf8_encode_cp_def)
  next
    case 2
    with assms have bs: "bs = [0xC0 + q, 0x80 + a]"
      by (simp add: utf8_encode_cp_def a_def q_def)
    from 2 c lt have "2 \<le> q" "q < 32"
      by linarith+
    then have "decode_utf8 (bs @ r) = map_option ((#) (q * 64 + a)) (decode_utf8 r)"
      unfolding bs using lt by (simp only: append_Cons append_Nil decode_utf8_two)
    then show ?thesis
      by (simp only: c [symmetric])
  next
    case 3
    with assms have bs: "bs = [0xE0 + p, 0x80 + b, 0x80 + a]"
      by (simp add: utf8_encode_cp_def p4096 a_def b_def q_def)
    from 3 c q lt have "p < 16" "p = 0 \<Longrightarrow> 32 \<le> b" "p = 13 \<Longrightarrow> b < 32"
      unfolding is_surrogate_def by linarith+
    then have "decode_utf8 (bs @ r) =
        map_option ((#) (p * 4096 + b * 64 + a)) (decode_utf8 r)"
      unfolding bs using lt by (simp only: append_Cons append_Nil decode_utf8_three)
    moreover have "p * 4096 + b * 64 + a = c"
      using c q by linarith
    ultimately show ?thesis
      by simp
  next
    case 4
    then have "\<not> is_surrogate c"
      by (simp add: is_surrogate_def)
    with 4 assms have bs: "bs = [0xF0 + t, 0x80 + d, 0x80 + b, 0x80 + a]"
      by (simp add: utf8_encode_cp_def p4096 t262144 a_def b_def d_def p_def q_def)
    from 4 assms(2) c q p lt have "t < 5" "t = 0 \<Longrightarrow> 16 \<le> d" "t = 4 \<Longrightarrow> d < 16"
      by linarith+
    then have "decode_utf8 (bs @ r) =
        map_option ((#) (t * 262144 + d * 4096 + b * 64 + a)) (decode_utf8 r)"
      unfolding bs using lt by (simp only: append_Cons append_Nil decode_utf8_four)
    moreover have "t * 262144 + d * 4096 + b * 64 + a = c"
      using c q p by linarith
    ultimately show ?thesis
      by simp
  next
    case 5
    with assms show ?thesis
      by (auto simp: utf8_encode_cp_def is_surrogate_def)
  qed
qed

lemma decode_encode_utf8:
  "encode_utf8 s = Inr bs \<Longrightarrow> is_str s \<Longrightarrow> decode_utf8 bs = Some s"
proof (induction s arbitrary: bs)
  case Nil
  then show ?case by simp
next
  case (Cons c cs)
  from Cons.prems obtain b1 rest where
    b1: "utf8_encode_cp c = Inr b1" and rest: "encode_utf8 cs = Inr rest"
    and bs: "bs = b1 @ rest"
    by (auto split: sum.splits)
  from Cons.prems have "c < 0x110000" "is_str cs"
    by (simp_all add: is_str_def)
  with Cons.IH [OF rest] b1 show ?case
    unfolding bs by (simp add: decode_utf8_encode_cp)
qed

subsection \<open>What quote_plus writes\<close>

lemma hexdigit_upper_cases:
  "d < 16 \<Longrightarrow> (48 \<le> hexdigit_upper d \<and> hexdigit_upper d \<le> 57)
              \<or> (65 \<le> hexdigit_upper d \<and> hexdigit_upper d \<le> 70)"
  by (auto simp: hexdigit_upper_def)

lemma hexval_hexdigit_upper: "d < 16 \<Longrightarrow> hexval (hexdigit_upper d) = d"
  by (auto simp: hexdigit_upper_def hexval_def)

lemma is_hexdig_hexdigit_upper: "d < 16 \<Longrightarrow> is_hexdig (hexdigit_upper d)"
  using hexdigit_upper_cases [of d] by (auto simp: is_hexdig_def)

lemma replace_char_concat:
  "replace_char old new (concat xss) = concat (map (replace_char old new) xss)"
  by (induction xss) (simp_all add: replace_char_def)

lemma replace_char_absent: "old \<notin> set s \<Longrightarrow> replace_char old new s = s"
  by (induction s) (auto simp: replace_char_def)

lemma format_02X_chars:
  assumes "b < 256" and "c \<in> set (37 # format_02X b)"
  shows "c \<noteq> 32 \<and> c \<noteq> 43 \<and> c < 128"
proof -
  from assms(1) have "b div 16 < 16" "b mod 16 < 16"
    by (simp_all add: less_mult_imp_div_less)
  then show ?thesis
    using assms(2) hexdigit_upper_cases [of "b div 16"] hexdigit_upper_cases [of "b mod 16"]
    by (auto simp: format_02X_def)
qed

lemma space_not_ALWAYS_SAFE: "32 \<notin> set ALWAYS_SAFE" and plus_not_ALWAYS_SAFE: "43 \<notin> set ALWAYS_SAFE"
  and percent_not_ALWAYS_SAFE: "37 \<notin> set ALWAYS_SAFE"
  by (simp_all add: in_ALWAYS_SAFE)

lemma ALWAYS_SAFE_ascii: "b \<in> set ALWAYS_SAFE \<Longrightarrow> b < 128"
  by (auto simp: in_ALWAYS_SAFE)

lemma Quoter_missing_space_safe:
  assumes "b < 256"
  shows "replace_char 32 43 (Quoter_missing [32] b) =
           (if b = 32 then [43] else Quoter_missing [] b)"
proof (cases "b \<in> set ALWAYS_SAFE")
  case True
  with space_not_ALWAYS_SAFE have "b \<noteq> 32"
    by auto
  with True show ?thesis
    by (simp add: Quoter_missing_def replace_char_def)
next
  case False
  show ?thesis
  proof (cases "b = 32")
    case True
    then show ?thesis
      by (simp add: Quoter_missing_def replace_char_def)
  next
    case False
    from assms have "32 \<notin> set (37 # format_02X b)"
      using format_02X_chars by blast
    then have "replace_char 32 43 (37 # format_02X b) = 37 # format_02X b"
      by (rule replace_char_absent)
    with False \<open>b \<notin> set ALWAYS_SAFE\<close> show ?thesis
      by (simp add: Quoter_missing_def)
  qed
qed

lemma quote_encode_utf8:
  "encode_utf8 s = Inr bs \<Longrightarrow>
   quote s safe = Inr (concat (map (Quoter_missing (filter (\<lambda>c. c < 128) safe)) bs))"
  by (cases s) (auto simp: quote_def quote_from_bytes_map)

lemma quote_plus_encode_utf8:
  assumes "encode_utf8 s = Inr bs" and "is_str s"
  shows "quote_plus s =
           Inr (concat (map (\<lambda>b. if b = 32 then [43] else Quoter_missing [] b) bs))"
proof (cases "32 \<in> set s")
  case True
  have bytes: "\<And>b. b \<in> set bs \<Longrightarrow> b < 256"
    using encode_utf8_bytes [OF assms] by (simp add: list_all_iff)
  have "quote s ([] @ [32]) = Inr (concat (map (Quoter_missing [32]) bs))"
    using assms(1) by (simp add: quote_encode_utf8)
  with True have "quote_plus s =
      Inr (concat (map (replace_char 32 43 \<circ> Quoter_missing [32]) bs))"
    by (simp add: quote_plus_def replace_char_concat)
  moreover have "map (replace_char 32 43 \<circ> Quoter_missing [32]) bs =
      map (\<lambda>b. if b = 32 then [43] else Quoter_missing [] b) bs"
    using bytes by (simp add: Quoter_missing_space_safe)
  ultimately show ?thesis
    by simp
next
  case False
  with assms(1) have "32 \<notin> set bs"
    by (simp add: encode_utf8_space)
  then have same: "map (Quoter_missing []) bs =
      map (\<lambda>b. if b = 32 then [43] else Quoter_missing [] b) bs"
    by (intro map_cong) auto
  from False assms(1) have "quote_plus s = Inr (concat (map (Quoter_missing []) bs))"
    by (simp add: quote_plus_def quote_encode_utf8)
  then show ?thesis
    by (simp only: same)
qed

lemma quote_plus_Inl:
  "quote_plus s = Inl e \<longleftrightarrow> e = UnicodeEncodeError \<and> list_ex is_surrogate s"
proof (cases "encode_utf8 s")
  case (Inl e')
  then have "s \<noteq> []"
    by auto
  with Inl have "quote_plus s = Inl e'"
    by (simp add: quote_plus_def quote_def)
  with Inl show ?thesis
    using encode_utf8_Inl [of s] by auto
next
  case (Inr bs)
  then have "quote_plus s \<noteq> Inl e"
    by (auto simp: quote_plus_def quote_encode_utf8)
  moreover from Inr have "\<not> list_ex is_surrogate s"
    using encode_utf8_Inl [of s UnicodeEncodeError] by simp
  ultimately show ?thesis
    by simp
qed

subsection \<open>What unquote_plus reads\<close>

lemma unquote_to_bytes_plain:
  "c \<noteq> 37 \<Longrightarrow> unquote_to_bytes (c # r) = c # unquote_to_bytes r"
  by (cases "(c # r)" rule: unquote_to_bytes.cases) auto

lemma unquote_to_bytes_escape:
  "is_hexdig h1 \<Longrightarrow> is_hexdig h2 \<Longrightarrow>
   unquote_to_bytes (37 # h1 # h2 # r) = (16 * hexval h1 + hexval h2) # unquote_to_bytes r"
  by simp

lemma unquote_to_bytes_format_02X:
  assumes "b < 256"
  shows "unquote_to_bytes (37 # format_02X b @ r) = b # unquote_to_bytes r"
proof -
  from assms have d: "b div 16 < 16" "b mod 16 < 16"
    by (simp_all add: less_mult_imp_div_less)
  then have "unquote_to_bytes (37 # format_02X b @ r) =
      (16 * (b div 16) + b mod 16) # unquote_to_bytes r"
    by (simp add: format_02X_def is_hexdig_hexdigit_upper hexval_hexdigit_upper)
  then show ?thesis
    by simp
qed

lemma replace_char_plus_Quoter:
  assumes "b < 256"
  shows "replace_char 43 32 (if b = 32 then [43] else Quoter_missing [] b) =
           (if b = 32 then [32] else Quoter_missing [] b)"
proof (cases "b = 32")
  case True
  then show ?thesis
    by (simp add: replace_char_def)
next
  case False
  have "43 \<notin> set (Quoter_missing [] b)"
  proof (cases "b \<in> set ALWAYS_SAFE")
    case True
    with plus_not_ALWAYS_SAFE show ?thesis
      by (auto simp: Quoter_missing_def)
  next
    case False
    with assms format_02X_chars [of b 43] show ?thesis
      by (auto simp: Quoter_missing_def)
  qed
  with False show ?thesis
    by (simp add: replace_char_absent)
qed

lemma unquote_to_bytes_Quoter:
  assumes "b < 256"
  shows "unquote_to_bytes ((if b = 32 then [32] else Quoter_missing [] b) @ r) =
           b # unquote_to_bytes r"
proof (cases "b = 32 \<or> b \<in> set ALWAYS_SAFE")
  case True
  with percent_not_ALWAYS_SAFE have "b \<noteq> 37"
    by auto
  with True show ?thesis
    by (auto simp: Quoter_missing_def unquote_to_bytes_plain)
next
  case False
  with assms show ?thesis
    by (simp add: Quoter_missing_def unquote_to_bytes_format_02X del: unquote_to_bytes.simps)
qed

lemma unquote_to_bytes_quoted:
  "list_all (\<lambda>b. b < 256) bs \<Longrightarrow>
   unquote_to_bytes (concat (map (\<lambda>b. if b = 32 then [32] else Quoter_missing [] b) bs)) = bs"
  by (induction bs) (simp_all add: unquote_to_bytes_Quoter del: unquote_to_bytes.simps(4))

lemma Quoter_ascii:
  assumes "b < 256" and "c \<in> set (if b = 32 then [32] else Quoter_missing [] b)"
  shows "c < 128"
proof (cases "b = 32 \<or> b \<in> set ALWAYS_SAFE")
  case True
  with assms(2) show ?thesis
    by (auto simp: Quoter_missing_def dest: ALWAYS_SAFE_ascii split: if_splits)
next
  case False
  with assms format_02X_chars [of b c] show ?thesis
    by (auto simp: Quoter_missing_def)
qed

lemma unquote_parts_ascii:
  "list_all (\<lambda>c. c < 128) s \<Longrightarrow>
   unquote_parts acc s = decode_utf8 (unquote_to_bytes (rev acc @ s))"
  by (induction s arbitrary: acc) simp_all

lemma unquote_to_bytes_no_percent: "37 \<notin> set s \<Longrightarrow> unquote_to_bytes s = s"
  by (induction s rule: unquote_to_bytes.induct) auto

lemma decode_utf8_ascii: "list_all (\<lambda>c. c < 128) s \<Longrightarrow> decode_utf8 s = Some s"
  by (induction s) simp_all

lemma unquote_ascii:
  assumes "list_all (\<lambda>c. c < 128) s"
  shows "unquote s = decode_utf8 (unquote_to_bytes s)"
proof (cases "37 \<in> set s")
  case True
  with assms show ?thesis
    by (simp add: unquote_def unquote_parts_ascii)
next
  case False
  with assms show ?thesis
    by (simp add: unquote_def unquote_to_bytes_no_percent decode_utf8_ascii)
qed

lemma unquote_plus_quote_plus:
  assumes "valid_text s"
  shows "\<exists>q. quote_plus s = Inr q \<and> unquote_plus q = Some s"
proof -
  from assms have str: "is_str s"
    by (auto simp: valid_text_def is_str_def list_all_iff)
  from assms obtain bs where bs: "encode_utf8 s = Inr bs"
    using valid_text_encode_utf8 by blast
  have bytes: "list_all (\<lambda>b. b < 256) bs"
    using bs str by (rule encode_utf8_bytes)
  define q where "q = concat (map (\<lambda>b. if b = 32 then [43] else Quoter_missing [] b) bs)"
  define q' where "q' = concat (map (\<lambda>b. if b = 32 then [32] else Quoter_missing [] b) bs)"
  have "quote_plus s = Inr q"
    unfolding q_def using bs str by (rule quote_plus_encode_utf8)
  moreover have "replace_char 43 32 q = q'"
    unfolding q_def q'_def replace_char_concat map_map
    using bytes by (intro arg_cong [where f = concat] map_cong)
      (simp_all add: list_all_iff replace_char_plus_Quoter)
  moreover have "list_all (\<lambda>c. c < 128) q'"
    unfolding q'_def using bytes Quoter_ascii by (fastforce simp: list_all_iff)
  moreover have "unquote_to_bytes q' = bs"
    unfolding q'_def using bytes by (rule unquote_to_bytes_quoted)
  moreover have "decode_utf8 bs = Some s"
    using bs str by (rule decode_encode_utf8)
  ultimately show ?thesis
    by (simp add: unquote_plus_def unquote_ascii)
qed

section \<open>The stored query\<close>

text \<open>The equations that evaluate the constructor on a literal.\<close>

lemmas quote_plus_eval =
  str_def init_def quote_plus_def quote_def quote_from_bytes_def rstrip_def
  Quoter_missing_def ALWAYS_SAFE_def utf8_encode_cp_def is_surrogate_def format_02X_def
  hexdigit_upper_def replace_char_def base_query_def

lemma init_quote_plus:
  "quote_plus V = Inr q \<Longrightarrow> init V = Inr \<lparr>priv_search_query = base_query @ q\<rparr>"
  by (simp add: init_def)

text \<open>
  What \<open>quote_plus\<close> writes for one byte, with the bytes that are kept spelled out: the
  letters, the digits and \<open>_\<close>, \<open>.\<close>, \<open>-\<close>, \<open>~\<close>.
\<close>

lemma Quoter_missing_unreserved:
  "Quoter_missing [] b =
     (if (65 \<le> b \<and> b < 91) \<or> (97 \<le> b \<and> b < 123) \<or> (48 \<le> b \<and> b < 58)
         \<or> b = 95 \<or> b = 46 \<or> b = 45 \<or> b = 126
      then [b] else 37 # format_02X b)"
  by (simp add: Quoter_missing_def in_ALWAYS_SAFE)

lemma quote_plus_bytewise:
  assumes "valid_text V"
  shows "\<exists>bs. encode_utf8 V = Inr bs
           \<and> quote_plus V =
               Inr (concat (map (\<lambda>b. if b = 32 then [43]
                                      else if (65 \<le> b \<and> b < 91) \<or> (97 \<le> b \<and> b < 123)
                                              \<or> (48 \<le> b \<and> b < 58)
                                              \<or> b = 95 \<or> b = 46 \<or> b = 45 \<or> b = 126
                                      then [b] else 37 # format_02X b) bs))"
proof -
  from assms have "is_str V"
    by (auto simp: valid_text_def is_str_def list_all_iff)
  moreover from assms obtain bs where bs: "encode_utf8 V = Inr bs"
    using valid_text_encode_utf8 by blast
  ultimately have "quote_plus V =
      Inr (concat (map (\<lambda>b. if b = 32 then [43] else Quoter_missing [] b) bs))"
    by (simp add: quote_plus_encode_utf8)
  with bs show ?thesis
    by (simp only: Quoter_missing_unreserved) blast
qed

text \<open>
  C1. For every version string that is text, the constructor stores the base URL followed
  by the percent-encoding of the UTF-8 bytes of the string: a space is written as \<open>+\<close>,
  a letter, a digit and \<open>_\<close>, \<open>.\<close>, \<open>-\<close>, \<open>~\<close> as itself, every other byte as \<open>%\<close> and its
  two upper-case hexadecimal digits. A read of the property returns the stored string
  followed by the unencoded \<open>" exploit"\<close> and leaves the instance as it was, so that a
  second read returns the same. For \<open>"OpenSSH 7.2"\<close> the stored query is
  \<open>https://www.google.co.uk/search?q=OpenSSH+7.2\<close> and the read one ends in
  \<open>OpenSSH+7.2 exploit\<close>; \<open>"a&b=c d"\<close> is stored as \<open>a%26b%3Dc+d\<close>, and the two bytes of
  \<open>U+00E9\<close> as \<open>%C3%A9\<close>.
\<close>

theorem search_query_stored_and_read:
  "(valid_text V \<longrightarrow>
      (\<exists>bs q. encode_utf8 V = Inr bs
         \<and> q = concat (map (\<lambda>b. if b = 32 then [43]
                                 else if (65 \<le> b \<and> b < 91) \<or> (97 \<le> b \<and> b < 123)
                                         \<or> (48 \<le> b \<and> b < 58)
                                         \<or> b = 95 \<or> b = 46 \<or> b = 45 \<or> b = 126
                                 then [b] else 37 # format_02X b) bs)
         \<and> init V = Inr \<lparr>priv_search_query = base_query @ q\<rparr>
         \<and> perform get Read_search_query \<lparr>priv_search_query = base_query @ q\<rparr> =
             (Returned_str (base_query @ q @ str '' exploit''),
              \<lparr>priv_search_query = base_query @ q\<rparr>)))
   \<and> base_query = str ''https://www.google.co.uk/search?q=''
   \<and> init (str ''OpenSSH 7.2'') =
       Inr \<lparr>priv_search_query = str ''https://www.google.co.uk/search?q=OpenSSH+7.2''\<rparr>
   \<and> search_query \<lparr>priv_search_query = str ''https://www.google.co.uk/search?q=OpenSSH+7.2''\<rparr> =
       str ''https://www.google.co.uk/search?q=OpenSSH+7.2 exploit''
   \<and> init (str ''a&b=c d'') =
       Inr \<lparr>priv_search_query = str ''https://www.google.co.uk/search?q=a%26b%3Dc+d''\<rparr>
   \<and> init (str ''caf'' @ [0xE9] @ str ''/1.0~'') =
       Inr \<lparr>priv_search_query = str ''https://www.google.co.uk/search?q=caf%C3%A9%2F1.0~''\<rparr>"
proof -
  have general: "\<exists>bs q. encode_utf8 V = Inr bs
         \<and> q = concat (map (\<lambda>b. if b = 32 then [43]
                                 else if (65 \<le> b \<and> b < 91) \<or> (97 \<le> b \<and> b < 123)
                                         \<or> (48 \<le> b \<and> b < 58)
                                         \<or> b = 95 \<or> b = 46 \<or> b = 45 \<or> b = 126
                                 then [b] else 37 # format_02X b) bs)
         \<and> init V = Inr \<lparr>priv_search_query = base_query @ q\<rparr>
         \<and> perform get Read_search_query \<lparr>priv_search_query = base_query @ q\<rparr> =
             (Returned_str (base_query @ q @ str '' exploit''),
              \<lparr>priv_search_query = base_query @ q\<rparr>)"
    if "valid_text V"
  proof -
    from that obtain bs where bs: "encode_utf8 V = Inr bs"
      and q: "quote_plus V =
               Inr (concat (map (\<lambda>b. if b = 32 then [43]
                                      else if (65 \<le> b \<and> b < 91) \<or> (97 \<le> b \<and> b < 123)
                                              \<or> (48 \<le> b \<and> b < 58)
                                              \<or> b = 95 \<or> b = 46 \<or> b = 45 \<or> b = 126
                                      then [b] else 37 # format_02X b) bs))"
      using quote_plus_bytewise by blast
    from q have "init V = Inr \<lparr>priv_search_query = base_query @
        concat (map (\<lambda>b. if b = 32 then [43]
                          else if (65 \<le> b \<and> b < 91) \<or> (97 \<le> b \<and> b < 123)
                                  \<or> (48 \<le> b \<and> b < 58)
                                  \<or> b = 95 \<or> b = 46 \<or> b = 45 \<or> b = 126
                          then [b] else 37 # format_02X b) bs)\<rparr>"
      by (rule init_quote_plus)
    with bs show ?thesis
      by (simp add: search_query_def)
  qed
  have openssh: "init (str ''OpenSSH 7.2'') =
      Inr \<lparr>priv_search_query = str ''https://www.google.co.uk/search?q=OpenSSH+7.2''\<rparr>"
    by (simp add: quote_plus_eval)
  have reading:
    "search_query \<lparr>priv_search_query = str ''https://www.google.co.uk/search?q=OpenSSH+7.2''\<rparr> =
       str ''https://www.google.co.uk/search?q=OpenSSH+7.2 exploit''"
    by (simp add: search_query_def str_def)
  have reserved: "init (str ''a&b=c d'') =
      Inr \<lparr>priv_search_query = str ''https://www.google.co.uk/search?q=a%26b%3Dc+d''\<rparr>"
    by (simp add: quote_plus_eval)
  have accent: "init (str ''caf'' @ [0xE9] @ str ''/1.0~'') =
      Inr \<lparr>priv_search_query = str ''https://www.google.co.uk/search?q=caf%C3%A9%2F1.0~''\<rparr>"
    by (simp add: quote_plus_eval)
  have base: "base_query = str ''https://www.google.co.uk/search?q=''"
    by (simp add: base_query_def)
  from general base openssh reading reserved accent show ?thesis
    by blast
qed

theorem search_query_stored_and_read_witness:
  "valid_text (str ''Apache/2.4.49 (Unix)'')
   \<and> init (str ''Apache/2.4.49 (Unix)'') =
       Inr \<lparr>priv_search_query = base_query @ str ''Apache%2F2.4.49+%28Unix%29''\<rparr>
   \<and> perform blank_session Read_search_query
       \<lparr>priv_search_query = base_query @ str ''Apache%2F2.4.49+%28Unix%29''\<rparr> =
       (Returned_str (base_query @ str ''Apache%2F2.4.49+%28Unix%29'' @ str '' exploit''),
        \<lparr>priv_search_query = base_query @ str ''Apache%2F2.4.49+%28Unix%29''\<rparr>)"
proof -
  have v: "valid_text (str ''Apache/2.4.49 (Unix)'')"
    by (simp add: valid_text_def is_surrogate_def str_def)
  have bytes: "encode_utf8 (str ''Apache/2.4.49 (Unix)'') = Inr (str ''Apache/2.4.49 (Unix)'')"
    by (simp add: str_def utf8_encode_cp_def)
  have written:
    "concat (map (\<lambda>b. if b = 32 then [43]
                      else if (65 \<le> b \<and> b < 91) \<or> (97 \<le> b \<and> b < 123)
                              \<or> (48 \<le> b \<and> b < 58)
                              \<or> b = 95 \<or> b = 46 \<or> b = 45 \<or> b = (126::nat)
                      then [b] else 37 # format_02X b) (str ''Apache/2.4.49 (Unix)''))
       = str ''Apache%2F2.4.49+%28Unix%29''"
    by (simp add: str_def format_02X_def hexdigit_upper_def)
  from search_query_stored_and_read [of "str ''Apache/2.4.49 (Unix)''" blank_session] v
  obtain bs q where "encode_utf8 (str ''Apache/2.4.49 (Unix)'') = Inr bs"
    and "q = concat (map (\<lambda>b. if b = 32 then [43]
                              else if (65 \<le> b \<and> b < 91) \<or> (97 \<le> b \<and> b < 123)
                                      \<or> (48 \<le> b \<and> b < 58)
                                      \<or> b = 95 \<or> b = 46 \<or> b = 45 \<or> b = 126
                              then [b] else 37 # format_02X b) bs)"
    and "init (str ''Apache/2.4.49 (Unix)'') = Inr \<lparr>priv_search_query = base_query @ q\<rparr>"
    and "perform blank_session Read_search_query \<lparr>priv_search_query = base_query @ q\<rparr> =
           (Returned_str (base_query @ q @ str '' exploit''),
            \<lparr>priv_search_query = base_query @ q\<rparr>)"
    by blast
  with bytes written v show ?thesis
    by simp
qed

text \<open>
  C4. For every version string that is text (no lone surrogate), the constructor
  succeeds, the stored URL starts with the base URL, and \<open>unquote_plus\<close> of what follows
  the base URL is the version string again. One decoding undoes the encoding, so nothing
  was encoded twice: \<open>&\<close>, \<open>=\<close>, \<open>+\<close> and \<open>%\<close> are each written as one escape.
\<close>

theorem stored_query_round_trip:
  "(valid_text V \<longrightarrow>
      (\<exists>f. init V = Inr f
         \<and> take (length base_query) (priv_search_query f) = base_query
         \<and> unquote_plus (drop (length base_query) (priv_search_query f)) = Some V))
   \<and> quote_plus (str ''a b&c=d+e%'') = Inr (str ''a+b%26c%3Dd%2Be%25'')"
proof -
  have "\<exists>f. init V = Inr f
         \<and> take (length base_query) (priv_search_query f) = base_query
         \<and> unquote_plus (drop (length base_query) (priv_search_query f)) = Some V"
    if "valid_text V"
  proof -
    from that obtain q where q: "quote_plus V = Inr q" and dec: "unquote_plus q = Some V"
      using unquote_plus_quote_plus by blast
    from q have "init V = Inr \<lparr>priv_search_query = base_query @ q\<rparr>"
      by (rule init_quote_plus)
    with dec show ?thesis
      by simp
  qed
  moreover have "quote_plus (str ''a b&c=d+e%'') = Inr (str ''a+b%26c%3Dd%2Be%25'')"
    by (simp add: quote_plus_eval)
  ultimately show ?thesis
    by blast
qed

theorem stored_query_round_trip_witness:
  "valid_text (str ''C++ & C#=1 '' @ [0xE9, 0x4E2D, 0x1F600])
   \<and> (\<exists>f. init (str ''C++ & C#=1 '' @ [0xE9, 0x4E2D, 0x1F600]) = Inr f
         \<and> take (length base_query) (priv_search_query f) = base_query
         \<and> unquote_plus (drop (length base_query) (priv_search_query f)) =
             Some (str ''C++ & C#=1 '' @ [0xE9, 0x4E2D, 0x1F600]))"
proof -
  have v: "valid_text (str ''C++ & C#=1 '' @ [0xE9, 0x4E2D, 0x1F600])"
    by (simp add: valid_text_def is_surrogate_def str_def)
  with stored_query_round_trip [of "str ''C++ & C#=1 '' @ [0xE9, 0x4E2D, 0x1F600]"]
  show ?thesis
    by blast
qed

text \<open>
  C8. The constructor returns an instance for every version string that is text, and
  for the empty string the stored query is the bare base URL.
\<close>

theorem init_total_on_text:
  "(valid_text V \<longrightarrow> (\<exists>f. init V = Inr f))
   \<and> init [] = Inr \<lparr>priv_search_query = str ''https://www.google.co.uk/search?q=''\<rparr>"
proof -
  have "\<exists>f. init V = Inr f" if "valid_text V"
  proof -
    from that obtain q where "quote_plus V = Inr q"
      using unquote_plus_quote_plus by blast
    then show ?thesis
      by (simp add: init_def)
  qed
  moreover have "init [] = Inr \<lparr>priv_search_query = str ''https://www.google.co.uk/search?q=''\<rparr>"
    by (simp add: init_def quote_plus_def quote_def base_query_def)
  ultimately show ?thesis
    by blast
qed

theorem init_total_on_text_witness:
  "valid_text (str ''Apache httpd 2.4.49 ((Unix))'')
   \<and> (\<exists>f. init (str ''Apache httpd 2.4.49 ((Unix))'') = Inr f)"
proof -
  have "valid_text (str ''Apache httpd 2.4.49 ((Unix))'')"
    by (simp add: valid_text_def is_surrogate_def str_def)
  with init_total_on_text [of "str ''Apache httpd 2.4.49 ((Unix))''"] show ?thesis
    by blast
qed

text \<open>
  A Python \<open>str\<close> can hold a lone surrogate, which is no text; the constructor raises
  \<open>UnicodeEncodeError\<close> exactly on the strings that hold one.
\<close>

lemma init_lone_surrogate: "init [0xD800] = Inl UnicodeEncodeError"
  by (simp add: init_def quote_plus_def quote_def utf8_encode_cp_def is_surrogate_def)

lemma init_raises_iff:
  "init V = Inl e \<longleftrightarrow> e = UnicodeEncodeError \<and> list_ex is_surrogate V"
  using quote_plus_Inl [of V e] by (auto simp: init_def split: sum.splits)

section \<open>The domain filter\<close>

lemma startswith_iff_prefix: "startswith url site \<longleftrightarrow> prefix site url"
proof
  assume "startswith url site"
  then have "url = site @ drop (length site) url"
    by (metis append_take_drop_id startswith_def)
  then show "prefix site url"
    by (metis prefixI)
next
  assume "prefix site url"
  then show "startswith url site"
    by (auto simp: startswith_def prefix_def)
qed

lemma filter_extracted_urls_prefix:
  "filter_extracted_urls site urls = filter (prefix site) urls"
  by (simp add: filter_extracted_urls_def startswith_iff_prefix)

text \<open>
  C2. For every prefix and every list of URLs, \<open>filter_extracted_urls\<close> returns the
  URLs that have the prefix as a literal prefix, in the order of the input: the result
  is the input filtered by \<open>prefix site\<close>, it is a subsequence of the input, and every
  URL with the prefix occurs in it as often as in the input (no deduplication), every
  other URL not at all.
\<close>

theorem filter_extracted_urls_subsequence:
  "filter_extracted_urls site urls = filter (prefix site) urls
   \<and> subseq (filter_extracted_urls site urls) urls
   \<and> count_list (filter_extracted_urls site urls) u =
       (if prefix site u then count_list urls u else 0)"
proof -
  have "count_list (filter (prefix site) urls) u =
          (if prefix site u then count_list urls u else 0)"
    by (induction urls) auto
  then show ?thesis
    by (simp add: filter_extracted_urls_prefix)
qed

text \<open>
  C6. The filter tests a prefix of the whole URL string: of the three URLs of the
  example only the first is kept (the third holds the domain in the middle), and a URL
  whose host only extends the domain is kept.
\<close>

theorem filter_extracted_urls_anchored:
  "filter_extracted_urls (str ''https://www.exploit-db.com'')
     [str ''https://www.exploit-db.com/exploits/1'',
      str ''https://www.cvedetails.com/x'',
      str ''https://evil.example/https://www.exploit-db.com'']
   = [str ''https://www.exploit-db.com/exploits/1'']
   \<and> filter_extracted_urls (str ''https://www.exploit-db.com'')
       [str ''https://www.exploit-db.com.evil.example/x'']
     = [str ''https://www.exploit-db.com.evil.example/x'']"
  by (simp add: filter_extracted_urls_def startswith_def str_def)

text \<open>
  C9. With the empty string as prefix the filter returns the list of URLs as it is.
\<close>

theorem filter_extracted_urls_empty_prefix:
  "filter_extracted_urls [] urls = urls"
  by (simp add: filter_extracted_urls_def startswith_def)

text \<open>
  C10. Filtering a filtered list again with the same prefix changes nothing.
\<close>

theorem filter_extracted_urls_idempotent:
  "filter_extracted_urls site (filter_extracted_urls site urls) =
   filter_extracted_urls site urls"
  by (simp add: filter_extracted_urls_def)

section \<open>The search\<close>

lemma search_for_pages_Inl:
  "get (search_query self) = Inl e \<Longrightarrow> search_for_pages get self site = Inl e"
  by (simp add: search_for_pages_def send_search_query_def)

lemma search_for_pages_Inr:
  "get (search_query self) = Inr r \<Longrightarrow>
   search_for_pages get self site =
     (case html_absolute_links r of
        Inl e \<Rightarrow> Inl e
      | Inr urls \<Rightarrow> Inr (filter_extracted_urls site urls))"
  by (simp add: search_for_pages_def send_search_query_def extract_urls_def)

text \<open>
  C3 does not hold as stated. The code never reads the status of the response: a server
  that answers 503 with a page holding links makes \<open>search_for_pages\<close> return the
  filtered links of that page, and nothing is raised.
\<close>

theorem search_for_pages_status_counterexample:
  "unavailable_session
     (search_query \<lparr>priv_search_query = str ''https://www.google.co.uk/search?q=OpenSSH+7.2''\<rparr>)
     = Inr unavailable_response
   \<and> status_code unavailable_response = 503
   \<and> search_for_pages unavailable_session
       \<lparr>priv_search_query = str ''https://www.google.co.uk/search?q=OpenSSH+7.2''\<rparr>
       (str ''https://www.exploit-db.com'')
     = Inr [str ''https://www.exploit-db.com/exploits/1'']"
  by (simp add: search_for_pages_def send_search_query_def extract_urls_def
        unavailable_session_def unavailable_response_def filter_extracted_urls_def
        startswith_def str_def)

text \<open>
  C3, amended. When the GET raises (connection, DNS or timeout failure), the same
  exception leaves \<open>search_for_pages\<close> and no list is returned. When the GET returns a
  response, the result is the filtered list of the links of its body, or the exception
  of the extraction, whatever the status: two responses that differ only in the status
  give the same result.
\<close>

theorem search_for_pages_propagates:
  "(get (search_query self) = Inl e \<longrightarrow> search_for_pages get self site = Inl e)
   \<and> (get' (search_query self) = Inr r \<longrightarrow>
        search_for_pages get' self site =
          (case html_absolute_links r of
             Inl e' \<Rightarrow> Inl e'
           | Inr urls \<Rightarrow> Inr (filter_extracted_urls site urls)))
   \<and> (get' (search_query self) = Inr r \<and> get'' (search_query self) = Inr (r\<lparr>status_code := code\<rparr>)
        \<longrightarrow> search_for_pages get'' self site = search_for_pages get' self site)"
  by (simp add: search_for_pages_Inl search_for_pages_Inr)

theorem search_for_pages_propagates_witness:
  "unreachable_session (search_query \<lparr>priv_search_query = base_query @ str ''OpenSSH+7.2''\<rparr>)
     = Inl ConnectionError
   \<and> search_for_pages unreachable_session
       \<lparr>priv_search_query = base_query @ str ''OpenSSH+7.2''\<rparr>
       (str ''https://www.exploit-db.com'') = Inl ConnectionError
   \<and> unavailable_session (search_query \<lparr>priv_search_query = base_query @ str ''OpenSSH+7.2''\<rparr>)
     = Inr unavailable_response
   \<and> found_session (search_query \<lparr>priv_search_query = base_query @ str ''OpenSSH+7.2''\<rparr>)
     = Inr (unavailable_response\<lparr>status_code := 200\<rparr>)
   \<and> search_for_pages unavailable_session
       \<lparr>priv_search_query = base_query @ str ''OpenSSH+7.2''\<rparr>
       (str ''https://www.exploit-db.com'')
     = Inr [str ''https://www.exploit-db.com/exploits/1'']
   \<and> search_for_pages found_session
       \<lparr>priv_search_query = base_query @ str ''OpenSSH+7.2''\<rparr>
       (str ''https://www.exploit-db.com'')
     = Inr [str ''https://www.exploit-db.com/exploits/1'']"
proof -
  have "unreachable_session
      (search_query \<lparr>priv_search_query = base_query @ str ''OpenSSH+7.2''\<rparr>)
      = Inl ConnectionError"
    by (simp add: unreachable_session_def)
  moreover have "unavailable_session
      (search_query \<lparr>priv_search_query = base_query @ str ''OpenSSH+7.2''\<rparr>)
      = Inr unavailable_response"
    by (simp add: unavailable_session_def)
  moreover have "found_session
      (search_query \<lparr>priv_search_query = base_query @ str ''OpenSSH+7.2''\<rparr>)
      = Inr (unavailable_response\<lparr>status_code := 200\<rparr>)"
    by (simp add: found_session_def found_response_def)
  moreover have "(case html_absolute_links unavailable_response of
        Inl e' \<Rightarrow> Inl e'
      | Inr urls \<Rightarrow> Inr (filter_extracted_urls (str ''https://www.exploit-db.com'') urls))
      = Inr [str ''https://www.exploit-db.com/exploits/1'']"
    by (simp add: unavailable_response_def filter_extracted_urls_def startswith_def str_def)
  ultimately show ?thesis
    using search_for_pages_propagates
      [of unreachable_session "\<lparr>priv_search_query = base_query @ str ''OpenSSH+7.2''\<rparr>"
          ConnectionError "str ''https://www.exploit-db.com''" unavailable_session
          unavailable_response found_session 200]
    by simp
qed

text \<open>
  C7. When the GET returns a response and the extraction returns its links,
  \<open>search_for_pages\<close> returns a list, the filtered links; when there are no links, it
  returns the empty list and raises nothing.
\<close>

theorem search_for_pages_returns_list:
  "get (search_query self) = Inr r \<and> html_absolute_links r = Inr urls \<longrightarrow>
     search_for_pages get self site = Inr (filter_extracted_urls site urls)
     \<and> (urls = [] \<longrightarrow> search_for_pages get self site = Inr [])"
  by (simp add: search_for_pages_Inr filter_extracted_urls_def)

theorem search_for_pages_returns_list_witness:
  "blank_session (search_query \<lparr>priv_search_query = base_query @ str ''vsftpd+2.3.4''\<rparr>)
     = Inr blank_response
   \<and> html_absolute_links blank_response = Inr []
   \<and> search_for_pages blank_session \<lparr>priv_search_query = base_query @ str ''vsftpd+2.3.4''\<rparr>
       (str ''https://www.cvedetails.com'') = Inr []"
proof -
  have "blank_session (search_query \<lparr>priv_search_query = base_query @ str ''vsftpd+2.3.4''\<rparr>)
      = Inr blank_response"
    by (simp add: blank_session_def)
  moreover have "html_absolute_links blank_response = Inr []"
    by (simp add: blank_response_def)
  ultimately show ?thesis
    using search_for_pages_returns_list
      [of blank_session "\<lparr>priv_search_query = base_query @ str ''vsftpd+2.3.4''\<rparr>"
          blank_response "[]" "str ''https://www.cvedetails.com''"]
    by (simp add: filter_extracted_urls_def)
qed

text \<open>
  C5 does not hold as stated. The property \<open>search_query\<close> has a public setter:
  after construction with \<open>"OpenSSH 7.2"\<close>, the assignment
  \<open>finder.search_query = "nginx 1.18"\<close> replaces the stored query.
\<close>

theorem stored_query_reassigned_counterexample:
  "init (str ''OpenSSH 7.2'') =
     Inr \<lparr>priv_search_query = str ''https://www.google.co.uk/search?q=OpenSSH+7.2''\<rparr>
   \<and> perform blank_session (Assign_search_query (str ''nginx 1.18''))
       \<lparr>priv_search_query = str ''https://www.google.co.uk/search?q=OpenSSH+7.2''\<rparr>
     = (Returned_None,
        \<lparr>priv_search_query = str ''https://www.google.co.uk/search?q=nginx+1.18''\<rparr>)"
  by (simp add: quote_plus_eval search_query_setter_def)

text \<open>
  C5, amended. Every public operation other than an assignment to \<open>search_query\<close>
  (reading the property, \<open>repr\<close>, the filter, the search) leaves the stored query as it
  is. An assignment stores the base URL followed by \<open>quote_plus\<close> of the assigned
  string, and leaves the stored query as it is when \<open>quote_plus\<close> raises.
\<close>

theorem stored_query_changes_only_by_assignment:
  "((\<forall>v. op \<noteq> Assign_search_query v) \<longrightarrow> snd (perform get op self) = self)
   \<and> (quote_plus v = Inr q \<longrightarrow>
        perform get (Assign_search_query v) self =
          (Returned_None, self\<lparr>priv_search_query := base_query @ q\<rparr>))
   \<and> (quote_plus v = Inl e \<longrightarrow>
        perform get (Assign_search_query v) self = (Raised e, self))"
proof -
  have "snd (perform get op self) = self" if "\<forall>v. op \<noteq> Assign_search_query v"
    using that by (cases op) (auto split: sum.splits)
  then show ?thesis
    by (simp add: search_query_setter_def)
qed

theorem stored_query_changes_only_by_assignment_witness:
  "snd (perform unavailable_session (Search_for_pages (str ''https://www.exploit-db.com''))
          \<lparr>priv_search_query = base_query @ str ''OpenSSH+7.2''\<rparr>)
     = \<lparr>priv_search_query = base_query @ str ''OpenSSH+7.2''\<rparr>
   \<and> quote_plus (str ''ProFTPD 1.3.5'') = Inr (str ''ProFTPD+1.3.5'')
   \<and> perform unavailable_session (Assign_search_query (str ''ProFTPD 1.3.5''))
       \<lparr>priv_search_query = base_query @ str ''OpenSSH+7.2''\<rparr>
     = (Returned_None, \<lparr>priv_search_query = base_query @ str ''ProFTPD+1.3.5''\<rparr>)
   \<and> quote_plus [0xDC80] = Inl UnicodeEncodeError
   \<and> perform unavailable_session (Assign_search_query [0xDC80])
       \<lparr>priv_search_query = base_query @ str ''OpenSSH+7.2''\<rparr>
     = (Raised UnicodeEncodeError, \<lparr>priv_search_query = base_query @ str ''OpenSSH+7.2''\<rparr>)"
proof -
  have ok: "quote_plus (str ''ProFTPD 1.3.5'') = Inr (str ''ProFTPD+1.3.5'')"
    by (simp add: quote_plus_eval)
  have bad: "quote_plus [0xDC80] = Inl UnicodeEncodeError"
    by (simp add: quote_plus_eval)
  have other: "\<forall>v. Search_for_pages (str ''https://www.exploit-db.com'') \<noteq> Assign_search_query v"
    by simp
  from ok bad other show ?thesis
    using stored_query_changes_only_by_assignment
      [of "Search_for_pages (str ''https://www.exploit-db.com'')" unavailable_session
          "\<lparr>priv_search_query = base_query @ str ''OpenSSH+7.2''\<rparr>"
          "str ''ProFTPD 1.3.5''" "str ''ProFTPD+1.3.5''"]
      stored_query_changes_only_by_assignment
      [of Repr unavailable_session
          "\<lparr>priv_search_query = base_query @ str ''OpenSSH+7.2''\<rparr>"
          "[0xDC80]" "[]" UnicodeEncodeError]
    by simp
qed

end
